theory Spec2Isabelle
  imports Complex_Main "HOL-Library.Word" "HOL-Library.Log_Nat"
begin

unbundle bit_operations_syntax

section \<open>The capture pipeline of windows/runner/audio\_capture.cpp\<close>

type_synonym u8 = "8 word"
type_synonym u16 = "16 word"
type_synonym u32 = "32 word"

subsection \<open>The output byte buffer (\<open>audio_bytes_\<close>, a \<open>std::deque<uint8_t>\<close>)\<close>

text \<open>
  The deque is a list whose head is the front. Both accesses of the source run under
  \<open>frames_mutex_\<close>, so each is one atomic step on the list.
\<close>

text \<open>\<open>for (const auto b : outPcm16) audio_bytes_.push_back(b);\<close>\<close>

fun push_all :: "u8 list \<Rightarrow> u8 list \<Rightarrow> u8 list" where
  "push_all buf [] = buf"
| "push_all buf (b # bs) = push_all (buf @ [b]) bs"

text \<open>\<open>while (audio_bytes_.size() > 64000) audio_bytes_.pop_front();\<close>\<close>

function cap_buffer :: "u8 list \<Rightarrow> u8 list" where
  "cap_buffer buf = (if length buf > 64000 then cap_buffer (tl buf) else buf)"
  by pat_completeness auto
termination
  by (relation "measure length") auto

declare cap_buffer.simps [simp del]

text \<open>Lines 394--406 of \<open>CaptureThreadProc\<close>: the guarded append under the lock.\<close>

definition store_pcm :: "u8 list \<Rightarrow> u8 list \<Rightarrow> u8 list" where
  "store_pcm audio_bytes outPcm16 =
     (if outPcm16 \<noteq> [] then cap_buffer (push_all audio_bytes outPcm16) else audio_bytes)"

text \<open>
  The copy loop of \<open>GetSystemAudioFrame\<close>: \<open>to_copy\<close> times
  \<open>out.push_back(audio_bytes_.front()); audio_bytes_.pop_front();\<close>.
  \<open>front()\<close> of an empty deque is undefined; the model returns \<open>None\<close> there.
\<close>

fun copy_front :: "nat \<Rightarrow> u8 list \<Rightarrow> u8 list \<Rightarrow> (u8 list \<times> u8 list) option" where
  "copy_front 0 out buf = Some (out, buf)"
| "copy_front (Suc n) out [] = None"
| "copy_front (Suc n) out (b # buf) = copy_front n (out @ [b]) buf"

text \<open>
  \<open>GetSystemAudioFrame\<close> on the buffer: the bytes returned and the buffer left behind.
  \<open>size_t\<close> is a natural number here: nothing is added to it.
\<close>

definition GetSystemAudioFrame :: "nat \<Rightarrow> u8 list \<Rightarrow> (u8 list \<times> u8 list) option" where
  "GetSystemAudioFrame requested_bytes audio_bytes =
     (if requested_bytes = 0 then Some ([], audio_bytes)
      else let available = length audio_bytes in
        if available = 0 then Some ([], audio_bytes)
        else let to_copy = min requested_bytes available in
          copy_front to_copy [] audio_bytes)"

text \<open>
  The operations that touch the buffer during the life of the object: the capture
  thread stores the bytes of a packet, a caller pulls a chunk.
\<close>

datatype buffer_op = Store "u8 list" | Pull nat

fun buffer_step :: "u8 list \<Rightarrow> buffer_op \<Rightarrow> u8 list" where
  "buffer_step buf (Store outPcm16) = store_pcm buf outPcm16"
| "buffer_step buf (Pull n) =
     (case GetSystemAudioFrame n buf of Some (out, buf') \<Rightarrow> buf' | None \<Rightarrow> buf)"

subsection \<open>The endpoint format (\<open>WAVEFORMATEX\<close>)\<close>

text \<open>
  The fields of \<open>WAVEFORMATEX\<close> as the Windows SDK declares them. \<open>SubFormat\<close> is
  the field of \<open>WAVEFORMATEXTENSIBLE\<close> that the source reads through a cast of the same
  pointer when the tag is \<open>WAVE_FORMAT_EXTENSIBLE\<close>.
\<close>

datatype GUID = GUID u32 u16 u16 "u8 list"

record WAVEFORMATEX =
  wFormatTag :: u16
  nChannels :: u16
  nSamplesPerSec :: u32
  nAvgBytesPerSec :: u32
  nBlockAlign :: u16
  wBitsPerSample :: u16
  cbSize :: u16
  SubFormat :: GUID

text \<open>The constants of \<open>mmreg.h\<close> and \<open>ksmedia.h\<close> that the source names.\<close>

definition WAVE_FORMAT_PCM :: u16 where "WAVE_FORMAT_PCM = 0x0001"
definition WAVE_FORMAT_IEEE_FLOAT :: u16 where "WAVE_FORMAT_IEEE_FLOAT = 0x0003"
definition WAVE_FORMAT_EXTENSIBLE :: u16 where "WAVE_FORMAT_EXTENSIBLE = 0xFFFE"

definition KSDATAFORMAT_SUBTYPE_PCM :: GUID where
  "KSDATAFORMAT_SUBTYPE_PCM =
     GUID 0x00000001 0x0000 0x0010 [0x80, 0x00, 0x00, 0xAA, 0x00, 0x38, 0x9B, 0x71]"

definition KSDATAFORMAT_SUBTYPE_IEEE_FLOAT :: GUID where
  "KSDATAFORMAT_SUBTYPE_IEEE_FLOAT =
     GUID 0x00000003 0x0000 0x0010 [0x80, 0x00, 0x00, 0xAA, 0x00, 0x38, 0x9B, 0x71]"

text \<open>A null \<open>fmt\<close> is \<open>None\<close>.\<close>

definition IsFloatFormat :: "WAVEFORMATEX option \<Rightarrow> bool" where
  "IsFloatFormat fmt =
     (case fmt of None \<Rightarrow> False
      | Some f \<Rightarrow>
          if wFormatTag f = WAVE_FORMAT_IEEE_FLOAT \<and> wBitsPerSample f = 32 then True
          else if wFormatTag f = WAVE_FORMAT_EXTENSIBLE
            then SubFormat f = KSDATAFORMAT_SUBTYPE_IEEE_FLOAT \<and> wBitsPerSample f = 32
          else False)"

definition IsPcm16Format :: "WAVEFORMATEX option \<Rightarrow> bool" where
  "IsPcm16Format fmt =
     (case fmt of None \<Rightarrow> False
      | Some f \<Rightarrow>
          if wFormatTag f = WAVE_FORMAT_PCM \<and> wBitsPerSample f = 16 then True
          else if wFormatTag f = WAVE_FORMAT_EXTENSIBLE
            then SubFormat f = KSDATAFORMAT_SUBTYPE_PCM \<and> wBitsPerSample f = 16
          else False)"

subsection \<open>The capture session (\<open>class AudioCapture\<close>)\<close>

text \<open>
  What the session does to the outside, in the order it does it: the result of
  \<open>InitializeWASAPI\<close>, a write of the running flag \<open>is_capturing_\<close> (the member
  that the loop of a capture thread tests) with the value written, the creation of a
  capture thread, \<open>audio_client_->Start()\<close> with its result, \<open>audio_client_->Stop()\<close>,
  the join of a thread and the deletion of its \<open>std::thread\<close> object. Threads are
  numbered in the order of their creation.
\<close>

datatype event =
    InitWASAPI bool
  | FlagWrite bool
  | ThreadSpawn nat
  | ClientStart bool
  | ClientStop
  | ThreadJoin nat
  | ThreadDelete nat

text \<open>
  The members of the class that the lifecycle uses; an interface pointer or handle is
  \<open>True\<close> when it is not null, \<open>capture_thread\<close> holds the number of the thread
  it points to. Three more fields record what the object cannot see of itself:
  \<open>threads\<close>, the threads created and not yet joined, \<open>spawned\<close>, how many were
  created so far, and \<open>events\<close>, the log of the calls above.
\<close>

record AudioCapture =
  is_capturing :: bool
  is_initialized :: bool
  device_enumerator :: bool
  loopback_device :: bool
  audio_client :: bool
  capture_client :: bool
  capture_format :: "WAVEFORMATEX option"
  audio_event :: bool
  capture_thread :: "nat option"
  threads :: "nat list"
  spawned :: nat
  events :: "event list"

text \<open>
  The outcome of every call into the operating system that one call of
  \<open>StartSystemAudio\<close> can make; they are inputs of the model. A failed COM call leaves
  null in its out parameter.
\<close>

record os_calls =
  CoCreateInstance_ok :: bool
  GetDefaultAudioEndpoint_ok :: bool
  Activate_ok :: bool
  GetMixFormat_out :: "WAVEFORMATEX option"
  Initialize_ok :: bool
  CreateEvent_ok :: bool
  SetEventHandle_ok :: bool
  GetService_ok :: bool
  Start_ok :: bool

text \<open>The constructor and the in-class initialisers.\<close>

definition AudioCapture_new :: AudioCapture where
  "AudioCapture_new =
     \<lparr> is_capturing = False, is_initialized = False, device_enumerator = False,
       loopback_device = False, audio_client = False, capture_client = False,
       capture_format = None, audio_event = False, capture_thread = None,
       threads = [], spawned = 0, events = [] \<rparr>"

definition FindLoopbackDevice :: "os_calls \<Rightarrow> AudioCapture \<Rightarrow> bool \<times> AudioCapture" where
  "FindLoopbackDevice os s =
     (if \<not> GetDefaultAudioEndpoint_ok os then (False, s\<lparr>loopback_device := False\<rparr>)
      else (True, s\<lparr>loopback_device := True\<rparr>))"

definition InitializeWASAPI :: "os_calls \<Rightarrow> AudioCapture \<Rightarrow> bool \<times> AudioCapture" where
  "InitializeWASAPI os s0 =
     (if \<not> CoCreateInstance_ok os then (False, s0\<lparr>device_enumerator := False\<rparr>)
      else let s1 = s0\<lparr>device_enumerator := True\<rparr> in
        case FindLoopbackDevice os s1 of (found, s2) \<Rightarrow>
        if \<not> found then (False, s2)
        else if \<not> Activate_ok os then (False, s2\<lparr>audio_client := False\<rparr>)
        else let s3 = s2\<lparr>audio_client := True\<rparr>;
                 s4 = (if capture_format s3 \<noteq> None then s3\<lparr>capture_format := None\<rparr> else s3);
                 s5 = s4\<lparr>capture_format := GetMixFormat_out os\<rparr> in
        if capture_format s5 = None then (False, s5)
        else if \<not> Initialize_ok os then (False, s5)
        else let s6 = (if \<not> audio_event s5 then s5\<lparr>audio_event := CreateEvent_ok os\<rparr> else s5) in
        if \<not> SetEventHandle_ok os then (False, s6)
        else if \<not> GetService_ok os then (False, s6\<lparr>capture_client := False\<rparr>)
        else (True, s6\<lparr>capture_client := True\<rparr>))"

text \<open>
  \<open>StartSystemAudio\<close>. The result is \<open>None\<close> where the source would call
  \<open>Start\<close> through a null \<open>audio_client_\<close>; otherwise the value returned and the
  object after the call. A join returns once the thread has ended, so it takes the
  thread out of \<open>threads\<close>.
\<close>

definition StartSystemAudio :: "os_calls \<Rightarrow> AudioCapture \<Rightarrow> (bool \<times> AudioCapture) option" where
  "StartSystemAudio os s0 =
     (let (init_failed, s1) =
        (if \<not> is_initialized s0 then
           (case InitializeWASAPI os s0 of (ok, s) \<Rightarrow>
              if \<not> ok then (True, s\<lparr>events := events s @ [InitWASAPI False]\<rparr>)
              else (False, s\<lparr>is_initialized := True, events := events s @ [InitWASAPI True]\<rparr>))
         else (False, s0))
      in if init_failed then Some (False, s1)
      else if \<not> audio_event s1 then Some (False, s1)
      else let t = spawned s1;
               s2 = s1\<lparr>is_capturing := True, capture_thread := Some t,
                       threads := threads s1 @ [t], spawned := Suc t,
                       events := events s1 @ [FlagWrite True, ThreadSpawn t]\<rparr> in
        if \<not> audio_client s2 then None
        else if \<not> Start_ok os then
          let s3 = s2\<lparr>is_capturing := False,
                       events := events s2 @ [ClientStart False, FlagWrite False]\<rparr> in
          Some (False,
            (case capture_thread s3 of
               None \<Rightarrow> s3
             | Some j \<Rightarrow> s3\<lparr>capture_thread := None, threads := removeAll j (threads s3),
                              events := events s3 @ [ThreadJoin j, ThreadDelete j]\<rparr>))
        else Some (True, s2\<lparr>events := events s2 @ [ClientStart True]\<rparr>))"

definition StopSystemAudio :: "AudioCapture \<Rightarrow> AudioCapture" where
  "StopSystemAudio s0 =
     (if is_capturing s0 then
        let s1 = s0\<lparr>is_capturing := False, events := events s0 @ [FlagWrite False]\<rparr>;
            s2 = (if audio_client s1 then s1\<lparr>events := events s1 @ [ClientStop]\<rparr> else s1)
        in (case capture_thread s2 of
              None \<Rightarrow> s2
            | Some j \<Rightarrow> s2\<lparr>capture_thread := None, threads := removeAll j (threads s2),
                             events := events s2 @ [ThreadJoin j, ThreadDelete j]\<rparr>)
      else s0)"

text \<open>The states an object can be in: after construction, calls of start and stop.\<close>

inductive reachable :: "AudioCapture \<Rightarrow> bool" where
  new: "reachable AudioCapture_new"
| start: "reachable s \<Longrightarrow> StartSystemAudio os s = Some (r, s') \<Longrightarrow> reachable s'"
| stop: "reachable s \<Longrightarrow> reachable (StopSystemAudio s)"

text \<open>
  The order that the specification gives to \<open>stop()\<close>, to compare with the source:
  in a log, the hardware stream is stopped only after a thread was joined. The order
  of the source, for the amended claim: \<open>flag_stop_join j es\<close> holds when the log
  \<open>es\<close> clears the running flag first, stops the hardware stream next and joins
  thread \<open>j\<close> after both, once each.
\<close>

fun stop_follows_join :: "bool \<Rightarrow> event list \<Rightarrow> bool" where
  "stop_follows_join joined [] = True"
| "stop_follows_join joined (ThreadJoin t # es) = stop_follows_join True es"
| "stop_follows_join joined (ClientStop # es) = (joined \<and> stop_follows_join joined es)"
| "stop_follows_join joined (e # es) = stop_follows_join joined es"

fun position :: "event \<Rightarrow> event list \<Rightarrow> nat option" where
  "position e [] = None"
| "position e (x # xs) = (if x = e then Some 0 else map_option Suc (position e xs))"

definition flag_stop_join :: "nat \<Rightarrow> event list \<Rightarrow> bool" where
  "flag_stop_join j es =
     (case (position (FlagWrite False) es, position ClientStop es, position (ThreadJoin j) es,
            position (ThreadDelete j) es) of
        (Some f, Some c, Some t, Some d) \<Rightarrow>
          f < c \<and> c < t \<and> t < d
          \<and> count_list es (FlagWrite False) = 1 \<and> count_list es ClientStop = 1
          \<and> count_list es (ThreadJoin j) = 1 \<and> count_list es (ThreadDelete j) = 1
      | _ \<Rightarrow> False)"

text \<open>An environment in which every call succeeds, for the concrete runs below.\<close>

definition stereo_float_48k :: WAVEFORMATEX where
  "stereo_float_48k =
     \<lparr> wFormatTag = WAVE_FORMAT_IEEE_FLOAT, nChannels = 2, nSamplesPerSec = 48000,
       nAvgBytesPerSec = 384000, nBlockAlign = 8, wBitsPerSample = 32, cbSize = 0,
       SubFormat = GUID 0 0 0 [] \<rparr>"

definition all_ok :: os_calls where
  "all_ok =
     \<lparr> CoCreateInstance_ok = True, GetDefaultAudioEndpoint_ok = True, Activate_ok = True,
       GetMixFormat_out = Some stereo_float_48k, Initialize_ok = True, CreateEvent_ok = True,
       SetEventHandle_ok = True, GetService_ok = True, Start_ok = True \<rparr>"

text \<open>
  States of concrete runs: after a first start, after a failed first start, and after a
  failed start on the session that captures.
\<close>

definition capturing_example :: AudioCapture where
  "capturing_example =
     \<lparr> is_capturing = True, is_initialized = True, device_enumerator = True,
       loopback_device = True, audio_client = True, capture_client = True,
       capture_format = Some stereo_float_48k, audio_event = True, capture_thread = Some 0,
       threads = [0], spawned = 1,
       events = [InitWASAPI True, FlagWrite True, ThreadSpawn 0, ClientStart True] \<rparr>"

definition rolled_back_example :: AudioCapture where
  "rolled_back_example =
     \<lparr> is_capturing = False, is_initialized = True, device_enumerator = True,
       loopback_device = True, audio_client = True, capture_client = True,
       capture_format = Some stereo_float_48k, audio_event = True, capture_thread = None,
       threads = [], spawned = 1,
       events = [InitWASAPI True, FlagWrite True, ThreadSpawn 0, ClientStart False,
                 FlagWrite False, ThreadJoin 0, ThreadDelete 0] \<rparr>"

definition failed_restart_example :: AudioCapture where
  "failed_restart_example =
     \<lparr> is_capturing = False, is_initialized = True, device_enumerator = True,
       loopback_device = True, audio_client = True, capture_client = True,
       capture_format = Some stereo_float_48k, audio_event = True, capture_thread = None,
       threads = [0], spawned = 2,
       events = [InitWASAPI True, FlagWrite True, ThreadSpawn 0, ClientStart True,
                 FlagWrite True, ThreadSpawn 1, ClientStart False, FlagWrite False,
                 ThreadJoin 1, ThreadDelete 1] \<rparr>"

subsection \<open>\<open>float\<close> and \<open>double\<close>: IEEE 754 binary32 and binary64\<close>

text \<open>
  A \<open>float\<close> or \<open>double\<close> is the number it denotes, an infinity or a NaN. The sign
  of a zero is not kept: no comparison, sum, product, \<open>floor\<close> or conversion of the
  source can see it, and the source divides by converted unsigned counts and positive
  constants only. An operation computes the exact result and rounds it to the nearest
  value of its format, ties to the even significand (the default rounding mode).
\<close>

datatype ieee = Finite real | PInf | NInf | NaN

record format =
  precision :: nat
  emin :: int
  emax :: int

definition binary32 :: format where
  "binary32 = \<lparr> precision = 24, emin = - 126, emax = 127 \<rparr>"

definition binary64 :: format where
  "binary64 = \<lparr> precision = 53, emin = - 1022, emax = 1023 \<rparr>"

text \<open>\<open>ilog2 x\<close> is the exponent \<open>e\<close> with \<open>2 powi e \<le> x < 2 powi (e + 1)\<close>, for \<open>0 < x\<close>.\<close>

definition ilog2 :: "real \<Rightarrow> int" where
  "ilog2 x = (if 1 \<le> x then bitlen \<lfloor>x\<rfloor> - 1 else - bitlen (\<lceil>1 / x\<rceil> - 1))"

definition round_half_even :: "real \<Rightarrow> int" where
  "round_half_even y =
     (let n = \<lfloor>y\<rfloor>; d = y - of_int n in
      if d < 1 / 2 then n
      else if 1 / 2 < d then n + 1
      else if even n then n else n + 1)"

text \<open>
  Rounding of a real number to a format: the spacing \<open>q\<close> of the format around \<open>x\<close>
  (that of the subnormal numbers below \<open>2 powi emin\<close>), the nearest multiple of \<open>q\<close>,
  and an infinity when that is beyond the largest finite value.
\<close>

definition fl :: "format \<Rightarrow> real \<Rightarrow> ieee" where
  "fl f x =
     (if x = 0 then Finite 0
      else let e = max (ilog2 \<bar>x\<bar>) (emin f);
               q = 2 powi (e - int (precision f) + 1);
               r = of_int (round_half_even (x / q)) * q
           in if 2 powi (emax f + 1) \<le> \<bar>r\<bar> then (if 0 < x then PInf else NInf)
              else Finite r)"

fun fneg :: "ieee \<Rightarrow> ieee" where
  "fneg (Finite x) = Finite (- x)"
| "fneg PInf = NInf"
| "fneg NInf = PInf"
| "fneg NaN = NaN"

fun fadd :: "format \<Rightarrow> ieee \<Rightarrow> ieee \<Rightarrow> ieee" where
  "fadd f (Finite x) (Finite y) = fl f (x + y)"
| "fadd f NaN b = NaN"
| "fadd f a NaN = NaN"
| "fadd f PInf NInf = NaN"
| "fadd f NInf PInf = NaN"
| "fadd f PInf b = PInf"
| "fadd f NInf b = NInf"
| "fadd f a PInf = PInf"
| "fadd f a NInf = NInf"

definition fsub :: "format \<Rightarrow> ieee \<Rightarrow> ieee \<Rightarrow> ieee" where
  "fsub f a b = fadd f a (fneg b)"

fun fmul :: "format \<Rightarrow> ieee \<Rightarrow> ieee \<Rightarrow> ieee" where
  "fmul f (Finite x) (Finite y) = fl f (x * y)"
| "fmul f NaN b = NaN"
| "fmul f a NaN = NaN"
| "fmul f PInf (Finite y) = (if y = 0 then NaN else if 0 < y then PInf else NInf)"
| "fmul f NInf (Finite y) = (if y = 0 then NaN else if 0 < y then NInf else PInf)"
| "fmul f (Finite x) PInf = (if x = 0 then NaN else if 0 < x then PInf else NInf)"
| "fmul f (Finite x) NInf = (if x = 0 then NaN else if 0 < x then NInf else PInf)"
| "fmul f PInf PInf = PInf"
| "fmul f PInf NInf = NInf"
| "fmul f NInf PInf = NInf"
| "fmul f NInf NInf = PInf"

text \<open>A zero divisor counts as \<open>+0\<close>; the source never divides by zero.\<close>

fun fdiv :: "format \<Rightarrow> ieee \<Rightarrow> ieee \<Rightarrow> ieee" where
  "fdiv f (Finite x) (Finite y) =
     (if y = 0 then (if x = 0 then NaN else if 0 < x then PInf else NInf)
      else fl f (x / y))"
| "fdiv f NaN b = NaN"
| "fdiv f a NaN = NaN"
| "fdiv f (Finite x) b = Finite 0"
| "fdiv f PInf (Finite y) = (if 0 \<le> y then PInf else NInf)"
| "fdiv f NInf (Finite y) = (if 0 \<le> y then NInf else PInf)"
| "fdiv f a b = NaN"

text \<open>The comparison \<open><\<close>: false as soon as an operand is a NaN.\<close>

fun fless :: "ieee \<Rightarrow> ieee \<Rightarrow> bool" where
  "fless (Finite x) (Finite y) = (x < y)"
| "fless NaN b = False"
| "fless a NaN = False"
| "fless a NInf = False"
| "fless PInf b = False"
| "fless NInf b = True"
| "fless a PInf = True"

text \<open>\<open>std::floor\<close> and \<open>std::max\<close> (\<open>max(a, b)\<close> is \<open>(a < b) ? b : a\<close>).\<close>

fun ffloor :: "ieee \<Rightarrow> ieee" where
  "ffloor (Finite x) = Finite (of_int \<lfloor>x\<rfloor>)"
| "ffloor a = a"

definition fmax :: "ieee \<Rightarrow> ieee \<Rightarrow> ieee" where
  "fmax a b = (if fless a b then b else a)"

text \<open>
  Conversions. An integer type converts to the nearest value of the format; a
  \<open>float\<close> is a \<open>double\<close> already; a \<open>double\<close> converts to the nearest
  \<open>float\<close>. A floating value converts to an integer type by truncation towards zero;
  where the truncated value is not a value of the integer type, so for every NaN and
  infinity, C++ leaves the conversion undefined. The conversion to \<open>size_t\<close> has no
  result there (\<open>None\<close>): an allocation or an index follows it. The conversion to
  \<open>int16_t\<close> is the one that the compilers of the runner's targets emit: the
  instruction \<open>cvttss2si\<close> truncates to a 32-bit integer and gives \<open>0x80000000\<close>
  for a NaN and for a value out of the 32-bit range, and \<open>int16_t\<close> keeps the low 16
  bits of it, so that a NaN converts to 0.
\<close>

definition of_integer :: "format \<Rightarrow> int \<Rightarrow> ieee" where
  "of_integer f n = fl f (of_int n)"

fun to_float :: "ieee \<Rightarrow> ieee" where
  "to_float (Finite x) = fl binary32 x"
| "to_float a = a"

definition toward_zero :: "real \<Rightarrow> int" where
  "toward_zero x = (if 0 \<le> x then \<lfloor>x\<rfloor> else \<lceil>x\<rceil>)"

fun to_size_t :: "ieee \<Rightarrow> nat option" where
  "to_size_t (Finite x) =
     (if 0 \<le> toward_zero x \<and> toward_zero x < 2 ^ 64 then Some (nat (toward_zero x)) else None)"
| "to_size_t a = None"

fun cvttss2si :: "ieee \<Rightarrow> u32" where
  "cvttss2si (Finite x) =
     (if - (2 ^ 31) \<le> toward_zero x \<and> toward_zero x < 2 ^ 31 then word_of_int (toward_zero x)
      else 0x80000000)"
| "cvttss2si a = 0x80000000"

definition to_int16 :: "ieee \<Rightarrow> u16" where
  "to_int16 a = ucast (cvttss2si a)"

text \<open>The value of the 32 bits of a \<open>float\<close> in memory.\<close>

definition decode_float :: "u32 \<Rightarrow> ieee" where
  "decode_float w =
     (let negative = bit w 31;
          e = unat (drop_bit 23 w AND 0xFF);
          m = unat (w AND 0x7FFFFF)
      in if e = 255 then (if m \<noteq> 0 then NaN else if negative then NInf else PInf)
         else let x = (if e = 0 then real m * 2 powi (- 149)
                       else real (2 ^ 23 + m) * 2 powi (int e - 150))
              in Finite (if negative then - x else x))"


subsection \<open>The conversion chain\<close>

text \<open>\<open>ClampFloat\<close> and \<open>FloatToPcm16\<close>, with \<open>int16_t\<close> as a 16-bit word.\<close>

definition ClampFloat :: "ieee \<Rightarrow> ieee" where
  "ClampFloat v =
     (if fless v (Finite (- 1)) then Finite (- 1)
      else if fless (Finite 1) v then Finite 1
      else v)"

definition FloatToPcm16 :: "ieee \<Rightarrow> u16" where
  "FloatToPcm16 v0 =
     (let v = ClampFloat v0;
          scaled = fmul binary32 v (Finite 32767)
      in if fless scaled (Finite (- 32768)) then word_of_int (- 32768)
         else if fless (Finite 32767) scaled then 32767
         else to_int16 scaled)"

text \<open>
  A pointer to bytes is the sequence of the bytes from its address on (the callee cannot
  see where the buffer ends), and \<open>None\<close> when null. The casts to \<open>const float*\<close>
  and \<open>const int16_t*\<close> read little-endian, as on every Windows target.
\<close>

type_synonym bytes = "nat \<Rightarrow> u8"

definition load16 :: "bytes \<Rightarrow> nat \<Rightarrow> u16" where
  "load16 p k = push_bit 8 (ucast (p (2 * k + 1))) OR ucast (p (2 * k))"

definition load32 :: "bytes \<Rightarrow> nat \<Rightarrow> u32" where
  "load32 p k =
     push_bit 24 (ucast (p (4 * k + 3))) OR push_bit 16 (ucast (p (4 * k + 2)))
       OR push_bit 8 (ucast (p (4 * k + 1))) OR ucast (p (4 * k))"

text \<open>
  The index \<open>i * channels + ch\<close>: \<open>i\<close> is a \<open>uint32_t\<close>, so the product and the
  sum are computed in 32 bits.
\<close>

definition sample_index :: "nat \<Rightarrow> u16 \<Rightarrow> nat \<Rightarrow> nat" where
  "sample_index i channels ch = unat (word_of_nat i * ucast channels + word_of_nat ch :: u32)"

text \<open>The two inner loops over the channels of frame \<open>i\<close> and the value stored for the frame.\<close>

definition float_frame :: "bytes \<Rightarrow> u16 \<Rightarrow> nat \<Rightarrow> ieee" where
  "float_frame p channels i =
     (let sum = fold (\<lambda>ch sum. fadd binary32 sum (decode_float (load32 p (sample_index i channels ch))))
                  [0 ..< unat channels] (Finite 0)
      in fdiv binary32 sum (of_integer binary32 (uint channels)))"

definition pcm16_frame :: "bytes \<Rightarrow> u16 \<Rightarrow> nat \<Rightarrow> ieee" where
  "pcm16_frame p channels i =
     (let sum = fold (\<lambda>ch sum. sum + scast (load16 p (sample_index i channels ch)))
                  [0 ..< unat channels] (0 :: u32)
      in fdiv binary32
           (fdiv binary32 (of_integer binary32 (sint sum)) (of_integer binary32 (uint channels)))
           (Finite 32768))"

text \<open>\<open>ToMonoFloat\<close>: the value returned and \<open>outMono\<close> after the call.\<close>

definition ToMonoFloat ::
  "WAVEFORMATEX option \<Rightarrow> bytes option \<Rightarrow> u32 \<Rightarrow> bool \<times> ieee list" where
  "ToMonoFloat fmt input frames =
     (case (fmt, input) of
        (Some f, Some p) \<Rightarrow>
          if frames = 0 then (False, [])
          else let channels = nChannels f in
            if channels = 0 then (False, [])
            else let outMono = replicate (unat frames) (Finite 0) in
              if IsFloatFormat fmt then
                (True, fold (\<lambda>i out. out[i := float_frame p channels i]) [0 ..< unat frames] outMono)
              else if IsPcm16Format fmt then
                (True, fold (\<lambda>i out. out[i := pcm16_frame p channels i]) [0 ..< unat frames] outMono)
              else (True, map (\<lambda>_. Finite 0) outMono)
      | _ \<Rightarrow> (False, []))"

text \<open>
  \<open>ResampleLinear\<close>. The sample of output index \<open>j\<close>; reading \<open>inMono\<close> beyond its
  end is undefined (\<open>None\<close>). A vector has fewer than \<open>2 ^ 64\<close> elements, so
  \<open>i0 + 1\<close> does not wrap when \<open>i0\<close> is an index of \<open>inMono\<close>.
\<close>

definition resample_at :: "ieee list \<Rightarrow> u32 \<Rightarrow> u32 \<Rightarrow> nat \<Rightarrow> ieee option" where
  "resample_at inMono inRate outRate j =
     (let pos = fdiv binary64
                  (fmul binary64 (of_integer binary64 (int j)) (of_integer binary64 (uint inRate)))
                  (of_integer binary64 (uint outRate))
      in case to_size_t (ffloor pos) of
           None \<Rightarrow> None
         | Some i0 \<Rightarrow>
             if length inMono \<le> i0 then None
             else let i1 = (if i0 + 1 < length inMono then i0 + 1 else i0);
                      frac = fsub binary64 pos (of_integer binary64 (int i0));
                      s0 = inMono ! i0;
                      s1 = inMono ! i1
                  in Some (to_float
                       (fadd binary64 (fmul binary64 (fsub binary64 (Finite 1) frac) s0)
                                      (fmul binary64 frac s1))))"

function resample_loop ::
  "ieee list \<Rightarrow> u32 \<Rightarrow> u32 \<Rightarrow> nat \<Rightarrow> nat \<Rightarrow> ieee list \<Rightarrow> ieee list option" where
  "resample_loop inMono inRate outRate outCount j outMono =
     (if j < outCount then
        (case resample_at inMono inRate outRate j of
           None \<Rightarrow> None
         | Some v \<Rightarrow> resample_loop inMono inRate outRate outCount (Suc j) (outMono[j := v]))
      else Some outMono)"
  by pat_completeness auto
termination
  by (relation "measure (\<lambda>(inMono, inRate, outRate, outCount, j, outMono). outCount - j)") auto

declare resample_loop.simps [simp del]

text \<open>\<open>outCount\<close>, lines 107 and 108.\<close>

definition resample_count :: "nat \<Rightarrow> u32 \<Rightarrow> u32 \<Rightarrow> nat option" where
  "resample_count n inRate outRate =
     (let ratio = fdiv binary64 (of_integer binary64 (uint outRate))
                    (of_integer binary64 (uint inRate))
      in to_size_t (fmax (Finite 1) (ffloor (fmul binary64 (of_integer binary64 (int n)) ratio))))"

definition ResampleLinear :: "ieee list \<Rightarrow> u32 \<Rightarrow> u32 \<Rightarrow> ieee list option" where
  "ResampleLinear inMono inRate outRate =
     (if inMono = [] \<or> inRate = 0 \<or> outRate = 0 then Some []
      else if inRate = outRate then Some inMono
      else case resample_count (length inMono) inRate outRate of
             None \<Rightarrow> None
           | Some outCount \<Rightarrow>
               resample_loop inMono inRate outRate outCount 0 (replicate outCount (Finite 0)))"

text \<open>
  \<open>MonoFloatToPcm16Bytes\<close>. \<open>s & 0xFF\<close> and \<open>(s >> 8) & 0xFF\<close> are computed on
  the \<open>int\<close> that \<open>s\<close> promotes to; the shift of a negative value is arithmetic.
\<close>

function pcm16_loop :: "ieee list \<Rightarrow> nat \<Rightarrow> u8 list \<Rightarrow> u8 list" where
  "pcm16_loop inMono i outBytes =
     (if i < length inMono then
        let s = FloatToPcm16 (inMono ! i) in
        pcm16_loop inMono (Suc i)
          (outBytes[i * 2 + 0 := word_of_int (sint s AND 0xFF),
                    i * 2 + 1 := word_of_int (drop_bit 8 (sint s) AND 0xFF)])
      else outBytes)"
  by pat_completeness auto
termination
  by (relation "measure (\<lambda>(inMono, i, outBytes). length inMono - i)") auto

declare pcm16_loop.simps [simp del]

definition MonoFloatToPcm16Bytes :: "ieee list \<Rightarrow> u8 list" where
  "MonoFloatToPcm16Bytes inMono = pcm16_loop inMono 0 (replicate (length inMono * 2) 0)"

text \<open>
  The encoder in the words of the specification, to compare with the source: a sample
  is clamped to \<open>[-1, 1]\<close> (an infinity to its end of the interval), scaled by 32767
  in \<open>float\<close> arithmetic, clamped to the range of a signed 16-bit integer and cut to
  an integer, which is emitted low byte first in two's complement. A NaN is no number:
  no clamp changes it, and its value is the 0 of its conversion to an integer.
\<close>

definition clamp_unit :: "real \<Rightarrow> real" where
  "clamp_unit x = max (- 1) (min 1 x)"

definition clamp_int16 :: "real \<Rightarrow> real" where
  "clamp_int16 y = max (- 32768) (min 32767 y)"

fun unit_value :: "ieee \<Rightarrow> real option" where
  "unit_value (Finite x) = Some (clamp_unit x)"
| "unit_value PInf = Some 1"
| "unit_value NInf = Some (- 1)"
| "unit_value NaN = None"

definition spec_encode_sample :: "ieee \<Rightarrow> int" where
  "spec_encode_sample v =
     (case unit_value v of
        None \<Rightarrow> 0
      | Some c \<Rightarrow>
          (case fl binary32 (c * 32767) of
             Finite y \<Rightarrow> toward_zero (clamp_int16 y)
           | _ \<Rightarrow> 0))"

definition le_bytes :: "int \<Rightarrow> u8 list" where
  "le_bytes n = [word_of_int (n mod 256), word_of_int (n div 256 mod 256)]"

definition spec_encode :: "ieee list \<Rightarrow> u8 list" where
  "spec_encode vs = concat (map (\<lambda>v. le_bytes (spec_encode_sample v)) vs)"

text \<open>Inputs of the concrete runs of the conversion chain.\<close>

definition unresolved_extensible :: WAVEFORMATEX where
  "unresolved_extensible =
     \<lparr> wFormatTag = WAVE_FORMAT_EXTENSIBLE, nChannels = 2, nSamplesPerSec = 48000,
       nAvgBytesPerSec = 288000, nBlockAlign = 6, wBitsPerSample = 24, cbSize = 22,
       SubFormat = KSDATAFORMAT_SUBTYPE_PCM \<rparr>"

definition zero_bytes :: bytes where
  "zero_bytes k = 0"

section \<open>Properties\<close>

subsection \<open>The byte buffer\<close>

lemma push_all_append: "push_all buf bs = buf @ bs"
  by (induction bs arbitrary: buf) simp_all

lemma cap_buffer_drop: "cap_buffer buf = drop (length buf - 64000) buf"
proof (induction buf rule: cap_buffer.induct)
  case (1 buf)
  show ?case
  proof (cases "length buf > 64000")
    case True
    then obtain b rest where buf: "buf = b # rest" by (cases buf) auto
    from True buf have len: "length buf - 64000 = Suc (length rest - 64000)" by simp
    have "cap_buffer buf = cap_buffer (tl buf)"
      using True by (subst cap_buffer.simps) (simp only: if_True)
    also have "\<dots> = drop (length (tl buf) - 64000) (tl buf)"
      using 1 True by blast
    also have "\<dots> = drop (length buf - 64000) buf"
      unfolding len unfolding buf by (simp only: list.sel drop_Suc_Cons)
    finally show ?thesis .
  next
    case False
    then have z: "length buf - 64000 = 0" by simp
    have "cap_buffer buf = buf"
      using False by (subst cap_buffer.simps) (simp only: if_False)
    then show ?thesis unfolding z by (simp only: drop_0)
  qed
qed

lemma window_length: "length (drop (length xs - 64000) xs) \<le> 64000"
  by simp

lemma store_pcm_window:
  "store_pcm buf out =
     (if out = [] then buf else drop (length (buf @ out) - 64000) (buf @ out))"
proof (cases "out = []")
  case True
  then show ?thesis by (simp add: store_pcm_def)
next
  case False
  then show ?thesis
    by (simp only: store_pcm_def push_all_append cap_buffer_drop if_False not_False_eq_True if_True)
qed

lemma store_pcm_length:
  assumes "length buf \<le> 64000"
  shows "length (store_pcm buf out) \<le> 64000"
proof (cases "out = []")
  case True
  with assms show ?thesis by (simp add: store_pcm_def)
next
  case False
  then show ?thesis by (simp only: store_pcm_window window_length if_False)
qed

lemma copy_front_take:
  "n \<le> length buf \<Longrightarrow> copy_front n out buf = Some (out @ take n buf, drop n buf)"
proof (induction n out buf rule: copy_front.induct)
  case (1 out buf)
  then show ?case by simp
next
  case (2 n out)
  then show ?case by simp
next
  case (3 n out b buf)
  then show ?case by simp
qed

lemma GetSystemAudioFrame_take:
  "GetSystemAudioFrame n buf = Some (take n buf, drop n buf)"
proof -
  have "copy_front (min n (length buf)) [] buf =
        Some ([] @ take (min n (length buf)) buf, drop (min n (length buf)) buf)"
    by (rule copy_front_take) simp
  then show ?thesis
    by (cases "n \<le> length buf") (simp_all add: GetSystemAudioFrame_def Let_def min_def)
qed

lemma buffer_step_length: "length buf \<le> 64000 \<Longrightarrow> length (buffer_step buf x) \<le> 64000"
  by (cases x) (simp_all add: store_pcm_length GetSystemAudioFrame_take)

lemma buffer_run_length:
  "length buf \<le> 64000 \<Longrightarrow> length (foldl buffer_step buf xs) \<le> 64000"
  by (induction xs arbitrary: buf) (simp_all add: buffer_step_length)

text \<open>
  C1. After every append of the capture thread the buffer holds at most 64000 bytes:
  an append of a non-empty packet leaves the last 64000 bytes of the old contents
  followed by the new bytes (all of them when there are fewer), whatever the buffer
  held before; along any run of stores and pulls from the empty buffer the length
  stays within 64000; and 70000 bytes stored into the empty buffer leave exactly
  their last 64000.
\<close>

theorem output_buffer_capacity:
  "length (foldl buffer_step [] xs) \<le> 64000
   \<and> (outPcm16 \<noteq> [] \<longrightarrow>
        length (store_pcm buf outPcm16) \<le> 64000
        \<and> store_pcm buf outPcm16 =
            drop (length (buf @ outPcm16) - 64000) (buf @ outPcm16))
   \<and> (length outPcm16 = 70000 \<longrightarrow>
        length (store_pcm [] outPcm16) = 64000
        \<and> store_pcm [] outPcm16 = drop 6000 outPcm16)"
proof -
  have a: "length (foldl buffer_step [] xs) \<le> 64000"
    by (rule buffer_run_length) simp
  have b: "outPcm16 \<noteq> [] \<longrightarrow>
        length (store_pcm buf outPcm16) \<le> 64000
        \<and> store_pcm buf outPcm16 =
            drop (length (buf @ outPcm16) - 64000) (buf @ outPcm16)"
  proof
    assume "outPcm16 \<noteq> []"
    then have "store_pcm buf outPcm16 =
        drop (length (buf @ outPcm16) - 64000) (buf @ outPcm16)"
      by (simp only: store_pcm_window if_False)
    then show "length (store_pcm buf outPcm16) \<le> 64000
        \<and> store_pcm buf outPcm16 =
            drop (length (buf @ outPcm16) - 64000) (buf @ outPcm16)"
      by (simp only: window_length simp_thms)
  qed
  have c: "length outPcm16 = 70000 \<longrightarrow>
        length (store_pcm [] outPcm16) = 64000
        \<and> store_pcm [] outPcm16 = drop 6000 outPcm16"
  proof
    assume len: "length outPcm16 = 70000"
    then have ne: "outPcm16 \<noteq> []" by auto
    from len have d: "length ([] @ outPcm16) - 64000 = 6000" by simp
    have "store_pcm [] outPcm16 = drop 6000 outPcm16"
      using ne d by (simp add: store_pcm_window)
    with len show "length (store_pcm [] outPcm16) = 64000
        \<and> store_pcm [] outPcm16 = drop 6000 outPcm16" by simp
  qed
  from a b c show ?thesis by blast
qed

theorem output_buffer_capacity_witness:
  "length (foldl buffer_step [] [Store [1, 2, 3], Pull 2, Store [4]]) \<le> 64000
   \<and> [5 :: u8] \<noteq> []
   \<and> store_pcm [7, 8] [5] = [7, 8, 5]
   \<and> length (replicate 70000 (0 :: u8)) = 70000
   \<and> length (store_pcm [] (replicate 70000 0)) = 64000
   \<and> store_pcm [] (replicate 70000 0) = replicate 64000 0"
  using output_buffer_capacity [of "[Store [1, 2, 3], Pull 2, Store [4]]" "[5]" "[7, 8]"]
    output_buffer_capacity [of "[]" "replicate 70000 0" "[]"]
  by simp

text \<open>
  C2. \<open>GetSystemAudioFrame\<close> always returns: its result is the first
  \<open>requested_bytes\<close> bytes of the buffer (all of them when there are fewer) and the
  buffer keeps the rest, in order; a request of 0 bytes and a pull from the empty buffer
  return the empty result and leave the buffer as it was. Since stores append at the
  back, the bytes pulled are the oldest ones still in the buffer.
\<close>

theorem GetSystemAudioFrame_fifo:
  "GetSystemAudioFrame requested_bytes audio_bytes =
     Some (take requested_bytes audio_bytes, drop requested_bytes audio_bytes)
   \<and> length (take requested_bytes audio_bytes) = min requested_bytes (length audio_bytes)
   \<and> take requested_bytes audio_bytes @ drop requested_bytes audio_bytes = audio_bytes
   \<and> GetSystemAudioFrame 0 audio_bytes = Some ([], audio_bytes)
   \<and> GetSystemAudioFrame requested_bytes [] = Some ([], [])"
  by (simp add: GetSystemAudioFrame_take)

subsection \<open>The capture session\<close>

lemma first_start: "StartSystemAudio all_ok AudioCapture_new = Some (True, capturing_example)"
  by (simp add: StartSystemAudio_def InitializeWASAPI_def FindLoopbackDevice_def Let_def all_ok_def AudioCapture_new_def capturing_example_def)

lemma failed_first_start:
  "StartSystemAudio (all_ok\<lparr>Start_ok := False\<rparr>) AudioCapture_new
     = Some (False, rolled_back_example)"
  by (simp add: StartSystemAudio_def InitializeWASAPI_def FindLoopbackDevice_def Let_def all_ok_def AudioCapture_new_def rolled_back_example_def)

lemma InitializeWASAPI_keeps:
  "threads (snd (InitializeWASAPI os s)) = threads s"
  "spawned (snd (InitializeWASAPI os s)) = spawned s"
  "events (snd (InitializeWASAPI os s)) = events s"
  "capture_thread (snd (InitializeWASAPI os s)) = capture_thread s"
  "is_capturing (snd (InitializeWASAPI os s)) = is_capturing s"
  "is_initialized (snd (InitializeWASAPI os s)) = is_initialized s"
  by (simp_all add: InitializeWASAPI_def FindLoopbackDevice_def Let_def)

lemma InitializeWASAPI_ok:
  "fst (InitializeWASAPI os s) \<Longrightarrow> audio_client (snd (InitializeWASAPI os s))"
  by (simp add: InitializeWASAPI_def FindLoopbackDevice_def Let_def split: if_splits)

lemma StartSystemAudio_initialized:
  assumes "is_initialized s"
  shows "StartSystemAudio os s =
     (if \<not> audio_event s then Some (False, s)
      else if \<not> audio_client s then None
      else if \<not> Start_ok os then
        Some (False, s\<lparr>is_capturing := False, capture_thread := None,
           threads := removeAll (spawned s) (threads s @ [spawned s]), spawned := Suc (spawned s),
           events := events s @ [FlagWrite True, ThreadSpawn (spawned s), ClientStart False,
              FlagWrite False, ThreadJoin (spawned s), ThreadDelete (spawned s)]\<rparr>)
      else Some (True, s\<lparr>is_capturing := True, capture_thread := Some (spawned s),
           threads := threads s @ [spawned s], spawned := Suc (spawned s),
           events := events s @ [FlagWrite True, ThreadSpawn (spawned s), ClientStart True]\<rparr>))"
  using assms by (simp add: StartSystemAudio_def Let_def)

lemma StartSystemAudio_uninitialized:
  assumes "\<not> is_initialized s" and "InitializeWASAPI os s = (ok, s1)"
  shows "StartSystemAudio os s =
     (if \<not> ok then Some (False, s1\<lparr>events := events s1 @ [InitWASAPI False]\<rparr>)
      else StartSystemAudio os
             (s1\<lparr>is_initialized := True, events := events s1 @ [InitWASAPI True]\<rparr>))"
  using assms by (simp add: StartSystemAudio_def Let_def)

lemma start_initialized_rollback:
  assumes "is_initialized s" and "StartSystemAudio os s = Some (r, s')"
    and "ClientStart False \<in> set (drop (length (events s)) (events s'))"
  shows "\<not> r \<and> \<not> is_capturing s' \<and> capture_thread s' = None
    \<and> threads s' = removeAll (spawned s) (threads s @ [spawned s])
    \<and> events s' = events s @ [FlagWrite True, ThreadSpawn (spawned s), ClientStart False,
          FlagWrite False, ThreadJoin (spawned s), ThreadDelete (spawned s)]
    \<and> is_initialized s' \<and> audio_event s' \<and> audio_client s'
    \<and> spawned s' = Suc (spawned s)"
  using assms by (auto simp: StartSystemAudio_initialized split: if_splits)

lemma start_rollback:
  assumes "StartSystemAudio os s = Some (r, s')"
    and "ClientStart False \<in> set (drop (length (events s)) (events s'))"
  shows "\<not> r \<and> \<not> is_capturing s' \<and> capture_thread s' = None
    \<and> threads s' = removeAll (spawned s) (threads s @ [spawned s])
    \<and> events s' = events s @ (if is_initialized s then [] else [InitWASAPI True])
          @ [FlagWrite True, ThreadSpawn (spawned s), ClientStart False,
             FlagWrite False, ThreadJoin (spawned s), ThreadDelete (spawned s)]
    \<and> is_initialized s' \<and> audio_event s' \<and> audio_client s'
    \<and> spawned s' = Suc (spawned s)"
proof (cases "is_initialized s")
  case True
  with start_initialized_rollback [OF True assms] show ?thesis by simp
next
  case False
  obtain ok s1 where i: "InitializeWASAPI os s = (ok, s1)"
    by (cases "InitializeWASAPI os s")
  have k: "events s1 = events s" "spawned s1 = spawned s" "threads s1 = threads s"
    using InitializeWASAPI_keeps [of os s] i by simp_all
  let ?s2 = "s1\<lparr>is_initialized := True, events := events s1 @ [InitWASAPI True]\<rparr>"
  show ?thesis
  proof (cases ok)
    case True
    with False i assms(1) have st: "StartSystemAudio os ?s2 = Some (r, s')"
      by (simp add: StartSystemAudio_uninitialized)
    have ini: "is_initialized ?s2" by simp
    have "drop (length (events s)) (events s')
          = InitWASAPI True # drop (length (events ?s2)) (events s')
          \<or> length (events s') \<le> length (events s)"
      using st ini k by (auto simp: StartSystemAudio_initialized split: if_splits)
    with assms(2) have "ClientStart False \<in> set (drop (length (events ?s2)) (events s'))"
      by auto
    from start_initialized_rollback [OF ini st this] k False show ?thesis by simp
  next
    case no: False
    with False i assms(1) have "events s' = events s @ [InitWASAPI False]"
      using k by (auto simp: StartSystemAudio_uninitialized)
    with assms(2) show ?thesis by simp
  qed
qed

lemma start_success:
  assumes "StartSystemAudio os s = Some (True, s')"
  shows "is_capturing s' \<and> is_initialized s' \<and> audio_client s' \<and> audio_event s'
    \<and> capture_thread s' = Some (spawned s) \<and> threads s' = threads s @ [spawned s]
    \<and> spawned s' = Suc (spawned s)
    \<and> events s' = events s @ (if is_initialized s then [] else [InitWASAPI True])
          @ [FlagWrite True, ThreadSpawn (spawned s), ClientStart True]"
proof (cases "is_initialized s")
  case True
  with assms show ?thesis
    by (auto simp: StartSystemAudio_initialized split: if_splits)
next
  case False
  obtain ok s1 where i: "InitializeWASAPI os s = (ok, s1)"
    by (cases "InitializeWASAPI os s")
  have k: "events s1 = events s" "spawned s1 = spawned s" "threads s1 = threads s"
    using InitializeWASAPI_keeps [of os s] i by simp_all
  let ?s2 = "s1\<lparr>is_initialized := True, events := events s1 @ [InitWASAPI True]\<rparr>"
  from False i assms have ok and st: "StartSystemAudio os ?s2 = Some (True, s')"
    by (auto simp: StartSystemAudio_uninitialized split: if_splits)
  from st k False show ?thesis
    by (auto simp: StartSystemAudio_initialized split: if_splits)
qed

lemma start_keeps_below:
  assumes "StartSystemAudio os s = Some (r, s')" and "\<forall>t \<in> set (threads s). t < spawned s"
  shows "\<forall>t \<in> set (threads s'). t < spawned s'"
proof (cases "is_initialized s")
  case True
  with assms show ?thesis
    by (auto simp: StartSystemAudio_initialized less_Suc_eq split: if_splits)
next
  case False
  obtain ok s1 where i: "InitializeWASAPI os s = (ok, s1)"
    by (cases "InitializeWASAPI os s")
  have k: "events s1 = events s" "spawned s1 = spawned s" "threads s1 = threads s"
    using InitializeWASAPI_keeps [of os s] i by simp_all
  let ?s2 = "s1\<lparr>is_initialized := True, events := events s1 @ [InitWASAPI True]\<rparr>"
  show ?thesis
  proof (cases ok)
    case True
    with False i assms have st: "StartSystemAudio os ?s2 = Some (r, s')"
      by (simp add: StartSystemAudio_uninitialized)
    from st k assms(2) show ?thesis
      by (auto simp: StartSystemAudio_initialized less_Suc_eq split: if_splits)
  next
    case no: False
    with False i assms k show ?thesis
      by (auto simp: StartSystemAudio_uninitialized)
  qed
qed

lemma stop_keeps_below:
  assumes "\<forall>t \<in> set (threads s). t < spawned s"
  shows "\<forall>t \<in> set (threads (StopSystemAudio s)). t < spawned (StopSystemAudio s)"
  using assms by (simp add: StopSystemAudio_def Let_def split: option.splits)

lemma reachable_threads_below: "reachable s \<Longrightarrow> \<forall>t \<in> set (threads s). t < spawned s"
proof (induction rule: reachable.induct)
  case new
  then show ?case by (simp add: AudioCapture_new_def)
next
  case (start s os r s')
  from start_keeps_below [OF start.hyps(2) start.IH] show ?case .
next
  case (stop s)
  from stop_keeps_below [OF stop.IH] show ?case .
qed

lemma stop_example:
  "StopSystemAudio capturing_example =
     capturing_example\<lparr>is_capturing := False, capture_thread := None, threads := [],
       events := [InitWASAPI True, FlagWrite True, ThreadSpawn 0, ClientStart True,
                  FlagWrite False, ClientStop, ThreadJoin 0, ThreadDelete 0]\<rparr>"
  by (simp add: StopSystemAudio_def capturing_example_def)

text \<open>
  C3, as stated: when the session is capturing, \<open>stop()\<close> joins the capture thread
  before it stops the hardware stream. The source calls \<open>audio_client_->Stop()\<close>
  first and joins afterwards: in the log of the run "start, stop" the stream is stopped
  before any thread was joined.
\<close>

theorem stop_order_counterexample:
  "is_capturing capturing_example
   \<and> drop (length (events capturing_example)) (events (StopSystemAudio capturing_example))
       = [FlagWrite False, ClientStop, ThreadJoin 0, ThreadDelete 0]
   \<and> \<not> stop_follows_join False
         (drop (length (events capturing_example)) (events (StopSystemAudio capturing_example)))"
  by (simp add: stop_example) (simp add: capturing_example_def)

text \<open>
  C3, amended. \<open>stop()\<close> changes nothing when the session is not capturing (so it
  returns at once on a session never started) and a second \<open>stop()\<close> changes nothing
  more; when the session is capturing it does exactly this, in this order: it clears the
  running flag, then stops the hardware stream (when the audio client exists), then joins
  and deletes the capture thread it points to, and it leaves no thread pointer. So with
  an audio client and a thread \<open>j\<close> the write of the flag comes before the stop of
  the stream and the stop of the stream before the join of \<open>j\<close>.
\<close>

theorem StopSystemAudio_lifecycle:
  "(\<not> is_capturing s \<longrightarrow> StopSystemAudio s = s)
   \<and> StopSystemAudio AudioCapture_new = AudioCapture_new
   \<and> StopSystemAudio (StopSystemAudio s) = StopSystemAudio s
   \<and> (is_capturing s \<longrightarrow>
        \<not> is_capturing (StopSystemAudio s)
        \<and> capture_thread (StopSystemAudio s) = None
        \<and> events (StopSystemAudio s) =
            events s @ [FlagWrite False] @ (if audio_client s then [ClientStop] else [])
              @ (case capture_thread s of None \<Rightarrow> [] | Some j \<Rightarrow> [ThreadJoin j, ThreadDelete j])
        \<and> threads (StopSystemAudio s) =
            (case capture_thread s of None \<Rightarrow> threads s | Some j \<Rightarrow> removeAll j (threads s)))
   \<and> (is_capturing s \<and> audio_client s \<and> capture_thread s = Some j \<longrightarrow>
        flag_stop_join j (drop (length (events s)) (events (StopSystemAudio s))))"
proof -
  have a: "\<not> is_capturing s \<longrightarrow> StopSystemAudio s = s"
    by (simp add: StopSystemAudio_def)
  have b: "StopSystemAudio AudioCapture_new = AudioCapture_new"
    by (simp add: StopSystemAudio_def AudioCapture_new_def)
  have off: "\<not> is_capturing (StopSystemAudio s)"
    by (simp add: StopSystemAudio_def Let_def split: option.splits)
  then have c: "StopSystemAudio (StopSystemAudio s) = StopSystemAudio s"
    by (subst StopSystemAudio_def) simp
  have d: "is_capturing s \<longrightarrow>
        \<not> is_capturing (StopSystemAudio s)
        \<and> capture_thread (StopSystemAudio s) = None
        \<and> events (StopSystemAudio s) =
            events s @ [FlagWrite False] @ (if audio_client s then [ClientStop] else [])
              @ (case capture_thread s of None \<Rightarrow> [] | Some j \<Rightarrow> [ThreadJoin j, ThreadDelete j])
        \<and> threads (StopSystemAudio s) =
            (case capture_thread s of None \<Rightarrow> threads s | Some j \<Rightarrow> removeAll j (threads s))"
    by (simp add: StopSystemAudio_def Let_def split: option.splits)
  have e: "is_capturing s \<and> audio_client s \<and> capture_thread s = Some j \<longrightarrow>
        flag_stop_join j (drop (length (events s)) (events (StopSystemAudio s)))"
  proof
    assume h: "is_capturing s \<and> audio_client s \<and> capture_thread s = Some j"
    with d have "drop (length (events s)) (events (StopSystemAudio s))
        = [FlagWrite False, ClientStop, ThreadJoin j, ThreadDelete j]"
      by simp
    then show "flag_stop_join j (drop (length (events s)) (events (StopSystemAudio s)))"
      by (simp add: flag_stop_join_def)
  qed
  from a b c d e show ?thesis by blast
qed

theorem StopSystemAudio_lifecycle_witness:
  "\<not> is_capturing AudioCapture_new
   \<and> StopSystemAudio AudioCapture_new = AudioCapture_new
   \<and> is_capturing capturing_example \<and> audio_client capturing_example
   \<and> capture_thread capturing_example = Some 0
   \<and> \<not> is_capturing (StopSystemAudio capturing_example)
   \<and> capture_thread (StopSystemAudio capturing_example) = None
   \<and> events (StopSystemAudio capturing_example) =
       events capturing_example @ [FlagWrite False, ClientStop, ThreadJoin 0, ThreadDelete 0]
   \<and> threads (StopSystemAudio capturing_example) = []
   \<and> flag_stop_join 0
       (drop (length (events capturing_example)) (events (StopSystemAudio capturing_example)))
   \<and> StopSystemAudio (StopSystemAudio capturing_example) = StopSystemAudio capturing_example"
proof -
  have n: "\<not> is_capturing AudioCapture_new"
    by (simp add: AudioCapture_new_def)
  have c: "is_capturing capturing_example" "audio_client capturing_example"
    "capture_thread capturing_example = Some 0" "threads capturing_example = [0]"
    by (simp_all add: capturing_example_def)
  from StopSystemAudio_lifecycle [of AudioCapture_new 0]
    StopSystemAudio_lifecycle [of capturing_example 0] n c
  show ?thesis by (simp add: flag_stop_join_def)
qed

text \<open>
  The rollback of a failed start. When a call of \<open>StartSystemAudio\<close> reaches
  \<open>audio_client_->Start()\<close> and that call fails, the call had set the running flag
  and spawned a thread before; it returns false after it cleared the flag and then
  joined and deleted that thread. The session is not capturing and holds no thread
  pointer, and the threads not yet joined are those of before the call: none when there
  was none. The session stays initialised with its event and audio client, so that a
  later call in which \<open>Start()\<close> succeeds returns true and captures with one new
  thread.
\<close>

lemma start_failure_rollback:
  assumes "reachable s"
    and "StartSystemAudio os s = Some (r, s')"
    and "ClientStart False \<in> set (drop (length (events s)) (events s'))"
  shows "\<not> r \<and> \<not> is_capturing s' \<and> capture_thread s' = None \<and> threads s' = threads s
    \<and> events s' = events s @ (if is_initialized s then [] else [InitWASAPI True])
          @ [FlagWrite True, ThreadSpawn (spawned s), ClientStart False,
             FlagWrite False, ThreadJoin (spawned s), ThreadDelete (spawned s)]
    \<and> (\<forall>os'. Start_ok os' \<longrightarrow>
          (\<exists>s''. StartSystemAudio os' s' = Some (True, s'') \<and> is_capturing s''
             \<and> capture_thread s'' = Some (spawned s')
             \<and> threads s'' = threads s' @ [spawned s']))"
proof -
  note rb = start_rollback [OF assms(2,3)]
  from reachable_threads_below [OF assms(1)] have "spawned s \<notin> set (threads s)"
    by auto
  then have same: "removeAll (spawned s) (threads s @ [spawned s]) = threads s"
    by simp
  have retry: "\<exists>s''. StartSystemAudio os' s' = Some (True, s'') \<and> is_capturing s''
             \<and> capture_thread s'' = Some (spawned s')
             \<and> threads s'' = threads s' @ [spawned s']" if "Start_ok os'" for os'
    using rb that by (simp add: StartSystemAudio_initialized)
  from rb same retry show ?thesis by simp
qed

lemma failed_first_start_retry:
  "reachable AudioCapture_new
   \<and> StartSystemAudio (all_ok\<lparr>Start_ok := False\<rparr>) AudioCapture_new
       = Some (False, rolled_back_example)
   \<and> ClientStart False \<in> set (drop (length (events AudioCapture_new))
         (events rolled_back_example))
   \<and> \<not> is_capturing rolled_back_example \<and> capture_thread rolled_back_example = None
   \<and> threads rolled_back_example = []
   \<and> Start_ok all_ok
   \<and> (\<exists>s''. StartSystemAudio all_ok rolled_back_example = Some (True, s'')
         \<and> is_capturing s'' \<and> capture_thread s'' = Some 1 \<and> threads s'' = [1])"
proof -
  have m: "ClientStart False \<in> set (drop (length (events AudioCapture_new))
         (events rolled_back_example))"
    by (simp add: AudioCapture_new_def rolled_back_example_def)
  have ok: "Start_ok all_ok" by (simp add: all_ok_def)
  from start_failure_rollback [OF reachable.new failed_first_start m] ok
  have "\<exists>s''. StartSystemAudio all_ok rolled_back_example = Some (True, s'')
         \<and> is_capturing s'' \<and> capture_thread s'' = Some (spawned rolled_back_example)
         \<and> threads s'' = threads rolled_back_example @ [spawned rolled_back_example]"
    by blast
  then have "\<exists>s''. StartSystemAudio all_ok rolled_back_example = Some (True, s'')
         \<and> is_capturing s'' \<and> capture_thread s'' = Some 1 \<and> threads s'' = [1]"
    by (simp add: rolled_back_example_def)
  with m ok failed_first_start reachable.new show ?thesis
    by (simp add: rolled_back_example_def)
qed

text \<open>
  C4 at the input that breaks it: \<open>start()\<close> called on a session that is capturing,
  in a call whose \<open>audio_client_->Start()\<close> fails. The call sets the flag, spawns
  thread 1, sees the failure, clears the flag and then joins and deletes thread 1, and
  returns false with the session not capturing. Thread 0, which the first call had
  spawned, is never joined: the pointer to it was overwritten when thread 1 was spawned,
  so a thread is left after the failed start, and no later call can join it.
\<close>

theorem failed_restart_leaves_thread:
  "StartSystemAudio all_ok AudioCapture_new = Some (True, capturing_example)
   \<and> StartSystemAudio (all_ok\<lparr>Start_ok := False\<rparr>) capturing_example
       = Some (False, failed_restart_example)
   \<and> drop (length (events capturing_example)) (events failed_restart_example)
       = [FlagWrite True, ThreadSpawn 1, ClientStart False, FlagWrite False,
          ThreadJoin 1, ThreadDelete 1]
   \<and> \<not> is_capturing failed_restart_example
   \<and> capture_thread failed_restart_example = None
   \<and> threads failed_restart_example = [0]
   \<and> ThreadJoin 0 \<notin> set (events failed_restart_example)
   \<and> threads (StopSystemAudio failed_restart_example) = [0]"
proof -
  have i: "is_initialized capturing_example" by (simp add: capturing_example_def)
  have r: "StartSystemAudio (all_ok\<lparr>Start_ok := False\<rparr>) capturing_example
       = Some (False, failed_restart_example)"
    by (subst StartSystemAudio_initialized [OF i])
      (simp add: capturing_example_def failed_restart_example_def)
  have e: "drop (length (events capturing_example)) (events failed_restart_example)
       = [FlagWrite True, ThreadSpawn 1, ClientStart False, FlagWrite False,
          ThreadJoin 1, ThreadDelete 1]"
    by (simp add: capturing_example_def failed_restart_example_def)
  have t: "\<not> is_capturing failed_restart_example
   \<and> capture_thread failed_restart_example = None
   \<and> threads failed_restart_example = [0]
   \<and> ThreadJoin 0 \<notin> set (events failed_restart_example)
   \<and> threads (StopSystemAudio failed_restart_example) = [0]"
    by (simp add: failed_restart_example_def StopSystemAudio_def)
  from first_start r e t show ?thesis by simp
qed

text \<open>
  The devices are initialised with success at most once in the life of an object: the
  log of a reachable state holds one successful initialisation when the object is
  initialised and none before.
\<close>

lemma reachable_initialized_once:
  "reachable s \<Longrightarrow>
     length (filter (\<lambda>e. e = InitWASAPI True) (events s)) = (if is_initialized s then 1 else 0)"
proof (induction rule: reachable.induct)
  case new
  then show ?case by (simp add: AudioCapture_new_def)
next
  case (start s os r s')
  show ?case
  proof (cases "is_initialized s")
    case True
    with start show ?thesis
      by (auto simp: StartSystemAudio_initialized split: if_splits)
  next
    case False
    obtain ok s1 where i: "InitializeWASAPI os s = (ok, s1)"
      by (cases "InitializeWASAPI os s")
    have k: "events s1 = events s" "is_initialized s1 = is_initialized s"
      using InitializeWASAPI_keeps [of os s] i by simp_all
    let ?s2 = "s1\<lparr>is_initialized := True, events := events s1 @ [InitWASAPI True]\<rparr>"
    show ?thesis
    proof (cases ok)
      case True
      with False i start.hyps(2) have st: "StartSystemAudio os ?s2 = Some (r, s')"
        by (simp add: StartSystemAudio_uninitialized)
      from st k start.IH False show ?thesis
        by (auto simp: StartSystemAudio_initialized split: if_splits)
    next
      case no: False
      with False i start.hyps(2) k start.IH show ?thesis
        by (auto simp: StartSystemAudio_uninitialized)
    qed
  qed
next
  case (stop s)
  then show ?case by (auto simp: StopSystemAudio_def Let_def split: option.splits if_splits)
qed

text \<open>
  C9 at the input that breaks it: \<open>start()\<close> called on a session that is capturing.
  The call spawns a second thread while the first one runs. When \<open>Start()\<close> succeeds
  again the session captures with two threads and points to the second only, so that
  \<open>stop()\<close> joins the second and leaves the first; when \<open>Start()\<close> fails the
  rollback clears the running flag of the first thread too and leaves it unjoined.
\<close>

theorem second_start_two_threads:
  "StartSystemAudio all_ok AudioCapture_new = Some (True, capturing_example)
   \<and> threads capturing_example = [0]
   \<and> map_option (\<lambda>(r, s). (r, is_capturing s, threads s, capture_thread s))
         (StartSystemAudio all_ok capturing_example)
       = Some (True, True, [0, 1], Some 1)
   \<and> map_option (\<lambda>(r, s). threads (StopSystemAudio s))
         (StartSystemAudio all_ok capturing_example)
       = Some [0]
   \<and> map_option (\<lambda>(r, s). (r, is_capturing s, threads s, capture_thread s))
         (StartSystemAudio (all_ok\<lparr>Start_ok := False\<rparr>) capturing_example)
       = Some (False, False, [0], None)"
  by (simp add: first_start)
    (auto simp: StartSystemAudio_initialized StopSystemAudio_def capturing_example_def all_ok_def)

subsection \<open>Rounding to a floating-point format\<close>

lemma ilog2_bounds:
  assumes "0 < x"
  shows "2 powi (ilog2 x) \<le> x" and "x < 2 powi (ilog2 x + 1)"
proof -
  have "2 powi (ilog2 x) \<le> x \<and> x < 2 powi (ilog2 x + 1)"
  proof (cases "1 \<le> x")
    case True
    define n where "n = \<lfloor>x\<rfloor>"
    have n: "0 < n" "of_int n \<le> x" "x < of_int n + 1"
      using True unfolding n_def by linarith+
    have b1: "1 \<le> bitlen n" using n(1) by (simp add: bitlen_alt_def)
    from bitlen_bounds [OF n(1)]
    have lo: "(2::int) ^ nat (bitlen n - 1) \<le> n" and hi: "n < 2 ^ nat (bitlen n)" by auto
    have e: "ilog2 x = bitlen n - 1" using True by (simp add: ilog2_def n_def)
    have "(2::real) powi (bitlen n - 1) = of_int (2 ^ nat (bitlen n - 1))"
      using b1 by (simp add: power_int_def)
    also have "\<dots> \<le> of_int n" using lo by (simp only: of_int_le_iff)
    finally have l: "2 powi (bitlen n - 1) \<le> x" using n(2) by linarith
    from hi have "n + 1 \<le> 2 ^ nat (bitlen n)" by simp
    then have "of_int (n + 1) \<le> (of_int (2 ^ nat (bitlen n)) :: real)" by (simp only: of_int_le_iff)
    also have "\<dots> = 2 powi (bitlen n)" using b1 by (simp add: power_int_def)
    finally have u: "x < 2 powi (bitlen n - 1 + 1)" using n(3) by simp
    from l u e show ?thesis by simp
  next
    case False
    define y where "y = 1 / x"
    define m where "m = \<lceil>y\<rceil> - 1"
    have y: "1 < y" using False assms by (simp add: y_def)
    have m: "0 < m" "of_int m < y" "y \<le> of_int m + 1"
      using y unfolding m_def by linarith+
    define b where "b = bitlen m"
    have b1: "1 \<le> b" using m(1) by (simp add: bitlen_alt_def b_def)
    from bitlen_bounds [OF m(1)]
    have lo: "(2::int) ^ nat (b - 1) \<le> m" and hi: "m < 2 ^ nat b" by (auto simp: b_def)
    have e: "ilog2 x = - b" using False by (simp add: ilog2_def m_def y_def b_def)
    have "of_int (m + 1) \<le> (of_int (2 ^ nat b) :: real)"
      using hi by (simp only: of_int_le_iff)
    then have yu: "y \<le> 2 ^ nat b" using m(3) by simp
    have "(of_int (2 ^ nat (b - 1)) :: real) \<le> of_int m" using lo by (simp only: of_int_le_iff)
    then have "(2::real) ^ nat (b - 1) \<le> of_int m" by simp
    then have yl: "2 ^ nat (b - 1) < y" using m(2) by linarith
    have x: "x = 1 / y" using assms by (simp add: y_def)
    have p1: "(2::real) powi (- b) = 1 / 2 ^ nat b"
      using b1 by (simp only: power_int_minus_divide) (simp add: power_int_nonneg_exp)
    have "- b + 1 = - (b - 1)" by simp
    then have p2: "(2::real) powi (- b + 1) = 1 / 2 ^ nat (b - 1)"
      using b1 by (simp only: power_int_minus_divide) (simp add: power_int_nonneg_exp)
    have l: "2 powi (- b) \<le> x"
      unfolding p1 x using yu y by (simp add: field_simps)
    have u: "x < 2 powi (- b + 1)"
      unfolding p2 x using yl y by (simp add: field_simps)
    from l u e show ?thesis by simp
  qed
  then show "2 powi (ilog2 x) \<le> x" and "x < 2 powi (ilog2 x + 1)" by simp_all
qed

lemma pow2_less_cancel:
  assumes "(2::real) powi a < 2 powi b"
  shows "a < b"
proof (rule ccontr)
  assume "\<not> a < b"
  then have "b \<le> a" by simp
  then have "(2::real) powi b \<le> 2 powi a" by (rule power_int_increasing) simp
  with assms show False by simp
qed

lemma ilog2_unique:
  assumes "0 < x" and "2 powi k \<le> x" and "x < 2 powi (k + 1)"
  shows "ilog2 x = k"
proof -
  note b = ilog2_bounds [OF assms(1)]
  have "(2::real) powi k < 2 powi (ilog2 x + 1)" using assms(2) b(2) by linarith
  then have 1: "k < ilog2 x + 1" by (rule pow2_less_cancel)
  have "(2::real) powi (ilog2 x) < 2 powi (k + 1)" using assms(3) b(1) by linarith
  then have 2: "ilog2 x < k + 1" by (rule pow2_less_cancel)
  from 1 2 show ?thesis by simp
qed

lemma ilog2_less:
  assumes "0 < x" and "x < 2 powi k"
  shows "ilog2 x < k"
proof -
  have "(2::real) powi (ilog2 x) < 2 powi k" using ilog2_bounds(1) [OF assms(1)] assms(2) by linarith
  then show ?thesis by (rule pow2_less_cancel)
qed




lemma round_half_even_le:
  assumes "y \<le> of_int n"
  shows "round_half_even y \<le> n"
proof -
  have "\<lfloor>y\<rfloor> \<le> n" using assms by (simp add: floor_le_iff) 
  moreover have "y - of_int \<lfloor>y\<rfloor> \<noteq> 0 \<Longrightarrow> \<lfloor>y\<rfloor> + 1 \<le> n"
    using assms by (smt (verit) floor_eq_iff le_floor_iff of_int_floor_le)
  ultimately show ?thesis
    by (auto simp: round_half_even_def Let_def)
qed

lemma round_half_even_ge:
  assumes "of_int n \<le> y"
  shows "n \<le> round_half_even y"
proof -
  have "n \<le> \<lfloor>y\<rfloor>" using assms by (simp add: le_floor_iff)
  then show ?thesis
    by (auto simp: round_half_even_def Let_def)
qed

lemma fl_zero: "fl f 0 = Finite 0"
  by (simp add: fl_def)

lemma fl_at:
  assumes "x \<noteq> 0" and "2 powi k \<le> \<bar>x\<bar>" and "\<bar>x\<bar> < 2 powi (k + 1)"
  shows "fl f x =
     (let e = max k (emin f);
          q = 2 powi (e - int (precision f) + 1);
          r = of_int (round_half_even (x / q)) * q
      in if 2 powi (emax f + 1) \<le> \<bar>r\<bar> then (if 0 < x then PInf else NInf) else Finite r)"
proof -
  from assms(1) have "0 < \<bar>x\<bar>" by simp
  from ilog2_unique [OF this assms(2,3)] assms(1) show ?thesis
    by (simp add: fl_def)
qed

lemma fl_int_bound:
  assumes x: "\<bar>x\<bar> \<le> of_int M"
    and M: "M < 2 ^ precision f"
    and lo: "emin f < int (precision f)"
    and hi: "int (precision f) \<le> emax f + 1"
  shows "\<exists>r. fl f x = Finite r \<and> \<bar>r\<bar> \<le> of_int M"
proof (cases "x = 0")
  case True
  with x show ?thesis by (simp add: fl_def)
next
  case False
  define p where "p = int (precision f)"
  define e where "e = max (ilog2 \<bar>x\<bar>) (emin f)"
  define d where "d = nat (p - 1 - e)"
  define K :: int where "K = 2 ^ d"
  define q :: real where "q = 2 powi (e - p + 1)"
  define r where "r = of_int (round_half_even (x / q)) * q"
  have pos: "0 < \<bar>x\<bar>" using False by simp
  have "real_of_int M < of_int (2 ^ precision f)" using M by (simp only: of_int_less_iff)
  then have Mp: "real_of_int M < 2 powi p" by (simp add: p_def)
  then have "\<bar>x\<bar> < 2 powi p" using x by linarith
  from ilog2_less [OF pos this] lo have e: "e \<le> p - 1" by (simp add: e_def p_def)
  then have "e - p + 1 = - int d" by (simp add: d_def)
  then have q: "q = 1 / of_int K"
    by (simp add: q_def K_def power_int_minus_divide)
  have K: "0 < K" by (simp add: K_def)
  then have Kr: "0 < real_of_int K" by simp
  have xq: "x / q = x * of_int K" by (simp add: q)
  have "x * of_int K \<le> of_int M * of_int K" "- (of_int M * of_int K) \<le> x * of_int K"
    using x Kr by (simp_all add: abs_le_iff mult_right_mono flip: mult_minus_left)
  then have b: "x / q \<le> of_int (M * K)" "of_int (- (M * K)) \<le> x / q"
    by (simp_all add: xq)
  have "round_half_even (x / q) \<le> M * K" "- (M * K) \<le> round_half_even (x / q)"
    using round_half_even_le [OF b(1)] round_half_even_ge [OF b(2)] by blast+
  then have "real_of_int (round_half_even (x / q)) \<le> of_int (M * K)"
    "real_of_int (- (M * K)) \<le> of_int (round_half_even (x / q))"
    by (simp_all only: of_int_le_iff)
  then have rb: "\<bar>r\<bar> \<le> of_int M"
    using Kr by (simp add: r_def q abs_le_iff field_simps)
  have "(2::real) powi p \<le> 2 powi (emax f + 1)"
    using hi by (intro power_int_increasing) (simp_all add: p_def)
  with rb Mp have "\<not> 2 powi (emax f + 1) \<le> \<bar>r\<bar>" by linarith
  then have "fl f x = Finite r"
    using False by (simp add: fl_def Let_def r_def q_def e_def p_def)
  with rb show ?thesis by blast
qed







lemma toward_zero_of_int [simp]: "toward_zero (of_int z) = z"
  by (simp add: toward_zero_def)

lemma toward_zero_bound:
  assumes "\<bar>r\<bar> \<le> of_int M"
  shows "- M \<le> toward_zero r \<and> toward_zero r \<le> M"
proof -
  from assms have "r \<le> of_int M" "of_int (- M) \<le> r" by (simp_all add: abs_le_iff)
  then have "\<lfloor>r\<rfloor> \<le> M" "- M \<le> \<lfloor>r\<rfloor>" "\<lceil>r\<rceil> \<le> M" "- M \<le> \<lceil>r\<rceil>"
    by (simp_all add: floor_le_iff le_floor_iff ceiling_le_iff le_ceiling_iff)
  then show ?thesis by (simp add: toward_zero_def)
qed



subsection \<open>The PCM encoder\<close>

lemma scaled_bound:
  assumes "\<bar>c\<bar> \<le> 1"
  shows "\<exists>r. fmul binary32 (Finite c) (Finite 32767) = Finite r \<and> \<bar>r\<bar> \<le> 32767"
proof -
  have "\<bar>c * 32767\<bar> \<le> real_of_int 32767" using assms by (simp add: abs_mult)
  from fl_int_bound [OF this, of binary32] show ?thesis by (simp add: binary32_def)
qed

lemma unit_value_bound: "unit_value v = Some c \<Longrightarrow> \<bar>c\<bar> \<le> 1"
  by (cases v) (auto simp: clamp_unit_def)

lemma ClampFloat_unit:
  "ClampFloat v = (case unit_value v of None \<Rightarrow> NaN | Some c \<Rightarrow> Finite c)"
  by (cases v) (auto simp: ClampFloat_def clamp_unit_def)

lemma to_int16_NaN: "to_int16 NaN = 0"
  by (simp add: to_int16_def)

lemma to_int16_in_range:
  assumes "- 32767 \<le> toward_zero r" and "toward_zero r \<le> 32767"
  shows "to_int16 (Finite r) = word_of_int (toward_zero r)"
proof -
  have "cvttss2si (Finite r) = word_of_int (toward_zero r)" using assms by simp
  moreover have "ucast (word_of_int k :: u32) = (word_of_int k :: u16)" for k
    by (rule bit_word_eqI) (auto simp: bit_simps)
  ultimately show ?thesis by (simp add: to_int16_def)
qed

lemma FloatToPcm16_spec: "FloatToPcm16 v = word_of_int (spec_encode_sample v)"
proof (cases "unit_value v")
  case None
  then show ?thesis
    by (simp add: FloatToPcm16_def ClampFloat_unit spec_encode_sample_def to_int16_NaN)
next
  case (Some c)
  from scaled_bound [OF unit_value_bound [OF Some]]
  obtain r where r: "fmul binary32 (Finite c) (Finite 32767) = Finite r" "\<bar>r\<bar> \<le> 32767"
    by blast
  then have r': "fl binary32 (c * 32767) = Finite r" by simp
  from r(2) have "\<bar>r\<bar> \<le> real_of_int 32767" by simp
  from toward_zero_bound [OF this] have t: "- 32767 \<le> toward_zero r" "toward_zero r \<le> 32767"
    by simp_all
  from r(2) have cl: "clamp_int16 r = r" by (simp add: clamp_int16_def abs_le_iff)
  from r(2) have nl: "\<not> r < - 32768" "\<not> 32767 < r" by (simp_all add: abs_le_iff)
  have "FloatToPcm16 v = to_int16 (Finite r)"
    using Some nl by (simp add: FloatToPcm16_def ClampFloat_unit Let_def r(1) del: fmul.simps)
  also have "\<dots> = word_of_int (toward_zero r)" using t by (rule to_int16_in_range)
  also have "toward_zero r = spec_encode_sample v"
    using Some r' cl by (simp add: spec_encode_sample_def)
  finally show ?thesis .
qed

lemma spec_encode_sample_range: "- 32767 \<le> spec_encode_sample v \<and> spec_encode_sample v \<le> 32767"
proof (cases "unit_value v")
  case None
  then show ?thesis by (simp add: spec_encode_sample_def)
next
  case (Some c)
  from scaled_bound [OF unit_value_bound [OF Some]]
  obtain r where r: "fl binary32 (c * 32767) = Finite r" "\<bar>r\<bar> \<le> 32767"
    by auto
  from r(2) have cl: "clamp_int16 r = r" by (simp add: clamp_int16_def abs_le_iff)
  from r(2) have "\<bar>r\<bar> \<le> real_of_int 32767" by simp
  from toward_zero_bound [OF this] Some r(1) cl show ?thesis
    by (simp add: spec_encode_sample_def)
qed

lemma sint_int16:
  assumes "- 32767 \<le> n" and "n \<le> 32767"
  shows "sint (word_of_int n :: u16) = n"
proof -
  have "signed_take_bit 15 n = n"
    using assms by (intro signed_take_bit_int_eq_self) simp_all
  then show ?thesis by (simp add: sint_sbintrunc')
qed

lemma sint_FloatToPcm16: "sint (FloatToPcm16 v) = spec_encode_sample v"
  using spec_encode_sample_range [of v] by (simp add: FloatToPcm16_spec sint_int16)

lemma bytes_of_int16:
  "[word_of_int (n AND 0xFF), word_of_int (drop_bit 8 n AND 0xFF)] = le_bytes n"
proof -
  have m: "(0xFF :: int) = mask 8" by (simp add: mask_eq_exp_minus_1)
  show ?thesis
    unfolding m by (simp add: le_bytes_def take_bit_eq_mod drop_bit_eq_div flip: take_bit_eq_mask)
qed

lemma spec_encode_length: "length (spec_encode xs) = 2 * length xs"
  by (induction xs) (simp_all add: spec_encode_def le_bytes_def)

lemma take_two_updates:
  assumes "Suc k < length out"
  shows "take (Suc (Suc k)) (out[k := a, Suc k := b]) = take k out @ [a, b]"
proof -
  have "take (Suc (Suc k)) (out[k := a, Suc k := b])
      = take (Suc k) (out[k := a, Suc k := b]) @ [out[k := a, Suc k := b] ! Suc k]"
    using assms by (simp add: take_Suc_conv_app_nth)
  also have "\<dots> = take (Suc k) (out[k := a]) @ [b]" using assms by simp
  also have "\<dots> = (take k (out[k := a]) @ [out[k := a] ! k]) @ [b]"
    using assms by (simp add: take_Suc_conv_app_nth)
  also have "\<dots> = take k out @ [a, b]" using assms by simp
  finally show ?thesis .
qed

lemma pcm16_loop_spec:
  assumes "length outBytes = 2 * length inMono" and "i \<le> length inMono"
  shows "pcm16_loop inMono i outBytes = take (2 * i) outBytes @ spec_encode (drop i inMono)"
  using assms
proof (induction inMono i outBytes rule: pcm16_loop.induct)
  case (1 inMono i outBytes)
  show ?case
  proof (cases "i < length inMono")
    case False
    with 1(3) have "i = length inMono" by simp
    with 1(2) show ?thesis by (subst pcm16_loop.simps) (simp add: spec_encode_def)
  next
    case True
    define n where "n = spec_encode_sample (inMono ! i)"
    let ?s = "FloatToPcm16 (inMono ! i)"
    let ?out = "outBytes[i * 2 + 0 := word_of_int (sint ?s AND 0xFF),
                       i * 2 + 1 := word_of_int (drop_bit 8 (sint ?s) AND 0xFF)]"
    have d: "drop i inMono = inMono ! i # drop (Suc i) inMono"
      using True by (simp add: Cons_nth_drop_Suc)
    have sn: "sint ?s = n" by (simp add: sint_FloatToPcm16 n_def)
    have len: "length ?out = 2 * length inMono" using 1(2) by simp
    have ih: "pcm16_loop inMono (Suc i) ?out =
        take (2 * Suc i) ?out @ spec_encode (drop (Suc i) inMono)"
      using True len by (intro 1(1)) simp_all
    have lt: "Suc (2 * i) < length outBytes" using True 1(2) by simp
    have tk: "take (2 * Suc i) ?out = take (2 * i) outBytes @ le_bytes n"
      using take_two_updates [OF lt] by (simp add: sn bytes_of_int16 mult.commute)
    have step: "pcm16_loop inMono i outBytes = pcm16_loop inMono (Suc i) ?out"
      using True by (subst pcm16_loop.simps) (simp add: Let_def)
    have rhs: "take (2 * i) outBytes @ spec_encode (drop i inMono)
        = (take (2 * i) outBytes @ le_bytes n) @ spec_encode (drop (Suc i) inMono)"
      by (simp add: d spec_encode_def n_def)
    show ?thesis
      by (simp only: step ih tk rhs)
  qed
qed

lemma MonoFloatToPcm16Bytes_spec: "MonoFloatToPcm16Bytes inMono = spec_encode inMono"
proof -
  have "pcm16_loop inMono 0 (replicate (length inMono * 2) 0) =
     take (2 * 0) (replicate (length inMono * 2) 0) @ spec_encode (drop 0 inMono)"
    by (rule pcm16_loop_spec) simp_all
  then show ?thesis by (simp add: MonoFloatToPcm16Bytes_def)
qed

lemma fl32_32767: "fl binary32 32767 = Finite 32767"
  by (subst fl_at [where k = 14]) (simp_all add: binary32_def round_half_even_def)

lemma fl32_m32767: "fl binary32 (- 32767) = Finite (- 32767)"
  by (subst fl_at [where k = 14]) (simp_all add: binary32_def round_half_even_def)

lemma encode_high: "spec_encode_sample (Finite (3 / 2)) = 32767"
  by (simp add: spec_encode_sample_def clamp_unit_def fl32_32767 clamp_int16_def toward_zero_def)

lemma encode_low: "spec_encode_sample (Finite (- 1)) = - 32767"
  by (simp add: spec_encode_sample_def clamp_unit_def fl32_m32767 clamp_int16_def toward_zero_def)

lemma encode_NaN: "spec_encode_sample NaN = 0"
  by (simp add: spec_encode_sample_def)

text \<open>
  C7. For every sequence of samples \<open>MonoFloatToPcm16Bytes\<close> returns exactly two
  bytes for every sample, and they are the encoding of the specification: the sample
  clamped to \<open>[-1, 1]\<close>, scaled by 32767, clamped to the 16-bit range and cut to an
  integer, low byte first. A NaN passes both clamps and converts to 0. The sample 1.5
  encodes to 32767, the bytes \<open>0xFF\<close> and \<open>0x7F\<close>.
\<close>

theorem MonoFloatToPcm16Bytes_encoding:
  "length (MonoFloatToPcm16Bytes inMono) = 2 * length inMono
   \<and> MonoFloatToPcm16Bytes inMono = spec_encode inMono
   \<and> sint (FloatToPcm16 v) = spec_encode_sample v
   \<and> FloatToPcm16 (Finite (3 / 2)) = 32767
   \<and> MonoFloatToPcm16Bytes [Finite (3 / 2)] = [0xFF, 0x7F]
   \<and> MonoFloatToPcm16Bytes [Finite 0, NaN] = [0, 0, 0, 0]"
proof -
  have a: "length (MonoFloatToPcm16Bytes inMono) = 2 * length inMono"
    by (simp add: MonoFloatToPcm16Bytes_spec spec_encode_length)
  have c: "FloatToPcm16 (Finite (3 / 2)) = 32767"
    by (simp add: FloatToPcm16_spec encode_high)
  have d: "MonoFloatToPcm16Bytes [Finite (3 / 2)] = [0xFF, 0x7F]"
    by (simp add: MonoFloatToPcm16Bytes_spec spec_encode_def encode_high le_bytes_def)
  have z: "spec_encode_sample (Finite 0) = 0"
    by (simp add: spec_encode_sample_def clamp_unit_def fl_zero clamp_int16_def toward_zero_def)
  have e: "MonoFloatToPcm16Bytes [Finite 0, NaN] = [0, 0, 0, 0]"
    by (simp add: MonoFloatToPcm16Bytes_spec spec_encode_def z encode_NaN le_bytes_def)
  from a c d e show ?thesis
    by (simp add: MonoFloatToPcm16Bytes_spec sint_FloatToPcm16)
qed

theorem MonoFloatToPcm16Bytes_encoding_witness:
  "MonoFloatToPcm16Bytes [Finite (3 / 2), Finite (- 1), NaN] = [0xFF, 0x7F, 0x01, 0x80, 0, 0]
   \<and> length (MonoFloatToPcm16Bytes [Finite (3 / 2), Finite (- 1), NaN])
       = 2 * length [Finite (3 / 2), Finite (- 1), NaN]
   \<and> sint (FloatToPcm16 (Finite (- 1))) = - 32767"
  using MonoFloatToPcm16Bytes_encoding [of "[Finite (3 / 2), Finite (- 1), NaN]" "Finite (- 1)"]
  by (simp add: spec_encode_def encode_high encode_low encode_NaN le_bytes_def)

text \<open>
  C10. For every sample, a NaN included, the 16-bit value of \<open>FloatToPcm16\<close> lies
  between -32767 and 32767, so -32768 is never emitted: the clamped sample times 32767
  rounds to a \<open>float\<close> within the interval, and a NaN converts to 0. The sample -1.0
  gives -32767, the bytes \<open>0x01\<close> and \<open>0x80\<close>.
\<close>

theorem FloatToPcm16_range:
  "- 32767 \<le> sint (FloatToPcm16 v) \<and> sint (FloatToPcm16 v) \<le> 32767
   \<and> FloatToPcm16 v \<noteq> word_of_int (- 32768)
   \<and> sint (FloatToPcm16 NaN) = 0
   \<and> FloatToPcm16 (Finite (- 1)) = word_of_int (- 32767)
   \<and> MonoFloatToPcm16Bytes [Finite (- 1)] = [0x01, 0x80]"
proof -
  have a: "- 32767 \<le> sint (FloatToPcm16 v) \<and> sint (FloatToPcm16 v) \<le> 32767"
    using spec_encode_sample_range [of v] by (simp add: sint_FloatToPcm16)
  have b: "FloatToPcm16 v \<noteq> word_of_int (- 32768)"
  proof
    assume "FloatToPcm16 v = word_of_int (- 32768)"
    then have "sint (FloatToPcm16 v) = sint (word_of_int (- 32768) :: u16)" by simp
    with a show False by simp
  qed
  have c: "sint (FloatToPcm16 NaN) = 0" by (simp add: sint_FloatToPcm16 encode_NaN)
  have d: "FloatToPcm16 (Finite (- 1)) = word_of_int (- 32767)"
    by (simp add: FloatToPcm16_spec encode_low)
  have e: "MonoFloatToPcm16Bytes [Finite (- 1)] = [0x01, 0x80]"
    by (simp add: MonoFloatToPcm16Bytes_spec spec_encode_def encode_low le_bytes_def)
  from a b c d e show ?thesis by blast
qed

theorem FloatToPcm16_range_witness:
  "FloatToPcm16 NInf = word_of_int (- 32767)
   \<and> - 32767 \<le> sint (FloatToPcm16 NInf) \<and> sint (FloatToPcm16 NInf) \<le> 32767
   \<and> - 32767 \<le> sint (FloatToPcm16 NaN) \<and> sint (FloatToPcm16 NaN) \<le> 32767"
proof -
  have "spec_encode_sample NInf = - 32767"
    by (simp add: spec_encode_sample_def fl32_m32767 clamp_int16_def toward_zero_def)
  then have "FloatToPcm16 NInf = word_of_int (- 32767)"
    by (simp add: FloatToPcm16_spec)
  with FloatToPcm16_range [of NInf] FloatToPcm16_range [of NaN] show ?thesis by simp
qed

subsection \<open>The format normaliser\<close>

lemma fold_update_length: "length (fold (\<lambda>i out. out[i := g i]) ks out0) = length out0"
  by (induction ks arbitrary: out0) simp_all

lemma ToMonoFloat_unfold:
  assumes "nChannels f \<noteq> 0"
  shows "ToMonoFloat (Some f) (Some p) frames =
     (if frames = 0 then (False, [])
      else if IsFloatFormat (Some f) then
        (True, fold (\<lambda>i out. out[i := float_frame p (nChannels f) i]) [0 ..< unat frames]
                 (replicate (unat frames) (Finite 0)))
      else if IsPcm16Format (Some f) then
        (True, fold (\<lambda>i out. out[i := pcm16_frame p (nChannels f) i]) [0 ..< unat frames]
                 (replicate (unat frames) (Finite 0)))
      else (True, replicate (unat frames) (Finite 0)))"
  using assms by (simp add: ToMonoFloat_def Let_def)

lemma unresolved_extensible_unknown:
  "nChannels unresolved_extensible \<noteq> 0
   \<and> \<not> IsFloatFormat (Some unresolved_extensible)
   \<and> \<not> IsPcm16Format (Some unresolved_extensible)"
  by (simp add: unresolved_extensible_def IsFloatFormat_def IsPcm16Format_def
      WAVE_FORMAT_EXTENSIBLE_def WAVE_FORMAT_PCM_def WAVE_FORMAT_IEEE_FLOAT_def
      KSDATAFORMAT_SUBTYPE_PCM_def KSDATAFORMAT_SUBTYPE_IEEE_FLOAT_def)

text \<open>
  C5, as stated: for a format with a channel and a non-null input, an encoding that is
  neither 32-bit float nor 16-bit PCM gives \<open>frames\<close> zeros and no failure. With
  \<open>frames = 0\<close> the source returns false.
\<close>

theorem ToMonoFloat_no_frames_counterexample:
  "nChannels unresolved_extensible \<noteq> 0
   \<and> \<not> IsFloatFormat (Some unresolved_extensible)
   \<and> \<not> IsPcm16Format (Some unresolved_extensible)
   \<and> ToMonoFloat (Some unresolved_extensible) (Some zero_bytes) 0 = (False, [])
   \<and> ToMonoFloat (Some unresolved_extensible) (Some zero_bytes) 0
       \<noteq> (True, replicate (unat (0 :: u32)) (Finite 0))"
  using unresolved_extensible_unknown
  by (simp add: ToMonoFloat_unfold)

text \<open>
  C5, amended. For a format with at least one channel and a non-null input,
  \<open>outMono\<close> has exactly \<open>frames\<close> elements after the call; the call returns true
  exactly when \<open>frames\<close> is not 0; and when \<open>frames\<close> is not 0 and the encoding is
  neither 32-bit float nor 16-bit PCM (an extensible format whose sub-format is neither
  included), \<open>outMono\<close> is \<open>frames\<close> zeros.
\<close>

theorem ToMonoFloat_length:
  assumes "nChannels f \<noteq> 0"
  shows "length (snd (ToMonoFloat (Some f) (Some p) frames)) = unat frames
    \<and> fst (ToMonoFloat (Some f) (Some p) frames) = (frames \<noteq> 0)
    \<and> (frames \<noteq> 0 \<and> \<not> IsFloatFormat (Some f) \<and> \<not> IsPcm16Format (Some f) \<longrightarrow>
          ToMonoFloat (Some f) (Some p) frames = (True, replicate (unat frames) (Finite 0)))"
  by (simp add: ToMonoFloat_unfold [OF assms] fold_update_length)

theorem ToMonoFloat_length_witness:
  "nChannels unresolved_extensible \<noteq> 0
   \<and> (2 :: u32) \<noteq> 0
   \<and> \<not> IsFloatFormat (Some unresolved_extensible)
   \<and> \<not> IsPcm16Format (Some unresolved_extensible)
   \<and> ToMonoFloat (Some unresolved_extensible) (Some zero_bytes) 2 = (True, [Finite 0, Finite 0])
   \<and> length (snd (ToMonoFloat (Some stereo_float_48k) (Some zero_bytes) 3)) = 3"
proof -
  have a: "nChannels unresolved_extensible \<noteq> 0" using unresolved_extensible_unknown by simp
  have b: "nChannels stereo_float_48k \<noteq> 0" by (simp add: stereo_float_48k_def)
  have "unat (2 :: u32) = Suc (Suc 0)" by simp
  then have c: "replicate (unat (2 :: u32)) (Finite 0) = [Finite 0, Finite 0]"
    by (simp only: replicate.simps)
  show ?thesis
    using ToMonoFloat_length [OF a, of zero_bytes 2] ToMonoFloat_length [OF b, of zero_bytes 3]
      unresolved_extensible_unknown c
    by simp
qed

subsection \<open>The rate converter\<close>





text \<open>
  C8, as stated: \<open>resample(s, r, r)\<close> is \<open>s\<close> for every rate \<open>r\<close>. The source tests
  for a zero rate first: at rate 0 a sequence of one sample comes back empty.
\<close>

theorem ResampleLinear_zero_rate_counterexample:
  "ResampleLinear [Finite 1] 0 0 = Some [] \<and> ResampleLinear [Finite 1] 0 0 \<noteq> Some [Finite 1]"
  by (simp add: ResampleLinear_def)

text \<open>
  C8, amended. For every sequence \<open>s\<close> and every rate \<open>r\<close> other than 0,
  \<open>resample(s, r, r)\<close> returns \<open>s\<close> unchanged; at rate 0 it returns the empty sequence.
\<close>

theorem ResampleLinear_same_rate:
  "(r \<noteq> 0 \<longrightarrow> ResampleLinear s r r = Some s) \<and> (r = 0 \<longrightarrow> ResampleLinear s r r = Some [])"
  by (cases s) (simp_all add: ResampleLinear_def)

theorem ResampleLinear_same_rate_witness:
  "(16000 :: u32) \<noteq> 0
   \<and> ResampleLinear [Finite 0, Finite 1, NaN] 16000 16000 = Some [Finite 0, Finite 1, NaN]
   \<and> ResampleLinear [Finite 0, Finite 1, NaN] 0 0 = Some []"
  using ResampleLinear_same_rate [of 16000 "[Finite 0, Finite 1, NaN]"]
    ResampleLinear_same_rate [of 0 "[Finite 0, Finite 1, NaN]"]
  by simp

















end
